theory Spec2Isabelle
  imports Complex_Main
begin

section \<open>Configuration and metric records\<close>

text \<open>
  The two classes under verification, \<open>CpuCollector\<close> and \<open>MetricsStream\<close>, both keep
  the \<open>config\<close> object they were constructed with and read one field of it each:
  \<open>cpuProfilingDuration\<close> (milliseconds) and \<open>metricsBufferSize\<close> (a count).
\<close>

record Config =
  cpuProfilingDuration :: int
  metricsBufferSize :: int

text \<open>
  A metric value is a JavaScript number produced by one division and one multiplication.
  The quotient is kept exact (a real); what a division by zero yields in JavaScript
  (\<open>Infinity\<close>, \<open>-Infinity\<close>, \<open>NaN\<close>) is a constructor of its own, so that a zero
  duration is not silently turned into the value \<open>0\<close>. Rounding of doubles and the sign
  of zero are not represented.
\<close>

datatype jsnum = Num real | PosInfinity | NegInfinity | NaN

text \<open>\<open>a / b\<close> for two integer-valued numbers.\<close>

definition js_div :: "int \<Rightarrow> int \<Rightarrow> jsnum" where
  "js_div a b =
     (if b = 0 then (if a = 0 then NaN else if 0 < a then PosInfinity else NegInfinity)
      else Num (real_of_int a / real_of_int b))"

text \<open>\<open>x * c\<close> for a number \<open>x\<close> and an integer-valued number \<open>c\<close>.\<close>

fun js_times :: "jsnum \<Rightarrow> int \<Rightarrow> jsnum" where
  "js_times (Num r) c = Num (r * real_of_int c)"
| "js_times PosInfinity c = (if c = 0 then NaN else if 0 < c then PosInfinity else NegInfinity)"
| "js_times NegInfinity c = (if c = 0 then NaN else if 0 < c then NegInfinity else PosInfinity)"
| "js_times NaN c = NaN"

record Metadata =
  unit :: string
  raw :: int
  duration :: int

record Metric =
  name :: string
  "value" :: jsnum
  timestamp :: int
  type :: string
  metadata :: Metadata

section \<open>The runtime seen by the collector\<close>

text \<open>
  \<open>process.cpuUsage\<close> reports the CPU time of the process, in microseconds, as an object
  with the fields \<open>user\<close> and \<open>system\<close>.
\<close>

record cpu_usage =
  user :: int
  system :: int

datatype error = Error string | RangeError string

text \<open>
  Node's \<open>process.cpuUsage(prevValue)\<close>. The first argument of the model is the reading
  the runtime takes at the moment of the call. Without a previous value the reading is
  returned as it is. With one, each field of the previous value must be a number between
  \<open>0\<close> and \<open>Number.MAX_SAFE_INTEGER\<close>, else a \<open>RangeError\<close> is thrown, and the result
  is the reading minus the previous value, field by field.
\<close>

definition previousValueIsValid :: "int \<Rightarrow> bool" where
  "previousValueIsValid num \<longleftrightarrow> num \<le> 9007199254740991 \<and> 0 \<le> num"

definition cpuUsage :: "cpu_usage \<Rightarrow> cpu_usage option \<Rightarrow> error + cpu_usage" where
  "cpuUsage reading prevValue =
     (case prevValue of
        None \<Rightarrow> Inr reading
      | Some p \<Rightarrow>
          if \<not> previousValueIsValid (user p) then Inl (RangeError ''prevValue.user'')
          else if \<not> previousValueIsValid (system p) then Inl (RangeError ''prevValue.system'')
          else Inr \<lparr>user = user reading - user p, system = system reading - system p\<rparr>)"

text \<open>
  One call of \<open>collect\<close> consults the runtime four times: the CPU reading before the
  timer is set, the CPU reading once the timer has fired, \<open>Date.now()\<close> right after it,
  and one more CPU reading for the next baseline. What the process does while the call
  is suspended is not the collector's business; the model receives the four answers.
\<close>

record instant =
  cpu :: cpu_usage
  now :: int

record collect_env =
  before_delay :: instant
  after_delay :: instant
  resample :: cpu_usage

section \<open>CpuCollector\<close>

record CpuCollector =
  config :: Config
  isRunning :: bool
  lastUsage :: "cpu_usage option"

definition new_CpuCollector :: "Config \<Rightarrow> CpuCollector" where
  "new_CpuCollector cfg = \<lparr>config = cfg, isRunning = False, lastUsage = None\<rparr>"

text \<open>\<open>start\<close>: the argument \<open>reading\<close> is what \<open>process.cpuUsage()\<close> returns.\<close>

definition start :: "cpu_usage \<Rightarrow> CpuCollector \<Rightarrow> CpuCollector" where
  "start reading this =
     (if isRunning this then this
      else this\<lparr>lastUsage := Some reading, isRunning := True\<rparr>)"

definition stop :: "CpuCollector \<Rightarrow> CpuCollector" where
  "stop this =
     (if \<not> isRunning this then this
      else this\<lparr>lastUsage := None, isRunning := False\<rparr>)"

definition not_started :: error where
  "not_started = Error ''Collector must be started before collecting metrics''"

text \<open>
  \<open>collect\<close> returns what the promise settles to (\<open>Inl\<close> a rejection, \<open>Inr\<close> the array
  of metrics) together with the collector as the call leaves it. No other call on the
  same collector runs while this one is suspended.
\<close>

definition collect :: "collect_env \<Rightarrow> CpuCollector \<Rightarrow> (error + Metric list) \<times> CpuCollector" where
  "collect e this =
     (if \<not> isRunning this then (Inl not_started, this)
      else
        case cpuUsage (cpu (before_delay e)) (lastUsage this) of
          Inl err \<Rightarrow> (Inl err, this)
        | Inr startUsage \<Rightarrow>
            (case cpuUsage (cpu (after_delay e)) (Some startUsage) of
               Inl err \<Rightarrow> (Inl err, this)
             | Inr endUsage \<Rightarrow>
                 (let timestamp = now (after_delay e);
                      this' = this\<lparr>lastUsage := Some (resample e)\<rparr>;
                      totalTime = cpuProfilingDuration (config this') * 1000;
                      userPercent = js_times (js_div (user endUsage) totalTime) 100;
                      systemPercent = js_times (js_div (system endUsage) totalTime) 100
                  in (Inr [\<lparr>name = ''cpu.user'', value = userPercent, timestamp = timestamp,
                             type = ''cpu'',
                             metadata = \<lparr>unit = ''percent'', raw = user endUsage,
                                         duration = cpuProfilingDuration (config this')\<rparr>\<rparr>,
                           \<lparr>name = ''cpu.system'', value = systemPercent, timestamp = timestamp,
                             type = ''cpu'',
                             metadata = \<lparr>unit = ''percent'', raw = system endUsage,
                                         duration = cpuProfilingDuration (config this')\<rparr>\<rparr>],
                      this'))))"

text \<open>
  The CPU time the process spends while \<open>collect\<close> is suspended: the reading at the end
  of the window minus the reading at its start.
\<close>

definition window_usage :: "collect_env \<Rightarrow> cpu_usage" where
  "window_usage e =
     \<lparr>user = user (cpu (after_delay e)) - user (cpu (before_delay e)),
      system = system (cpu (after_delay e)) - system (cpu (before_delay e))\<rparr>"

section \<open>MetricsStream\<close>

text \<open>
  The stream's buffer is a JavaScript array that is mutated in place
  (\<open>push\<close>, \<open>length = 0\<close>), and a flush hands listeners a second array. Arrays therefore
  live in a store, addressed by references; \<open>fresh\<close> is the next reference to be
  allocated and \<open>events\<close> records each \<open>emit(name, array)\<close> in order, with the reference
  that the listeners receive. The listeners themselves are outside the model: they do
  not write to the array they are given, and they do not call the stream from inside a
  notification.
\<close>

type_synonym ref = nat

record 'm store =
  arrays :: "ref \<Rightarrow> 'm list"
  fresh :: ref
  events :: "(string \<times> ref) list"

definition empty_store :: "'m store" where
  "empty_store = \<lparr>arrays = (\<lambda>_. []), fresh = 0, events = []\<rparr>"

text \<open>An array literal, such as \<open>[]\<close> or \<open>[...xs]\<close>, allocates a new array.\<close>

definition new_array :: "'m list \<Rightarrow> 'm store \<Rightarrow> ref \<times> 'm store" where
  "new_array xs h = (fresh h, h\<lparr>arrays := (arrays h)(fresh h := xs), fresh := Suc (fresh h)\<rparr>)"

text \<open>\<open>a.push(...xs)\<close>, \<open>a.length = 0\<close> and \<open>emit(name, a)\<close>.\<close>

definition array_push :: "ref \<Rightarrow> 'm list \<Rightarrow> 'm store \<Rightarrow> 'm store" where
  "array_push a xs h = h\<lparr>arrays := (arrays h)(a := arrays h a @ xs)\<rparr>"

definition array_truncate :: "ref \<Rightarrow> 'm store \<Rightarrow> 'm store" where
  "array_truncate a h = h\<lparr>arrays := (arrays h)(a := [])\<rparr>"

definition emit :: "string \<Rightarrow> ref \<Rightarrow> 'm store \<Rightarrow> 'm store" where
  "emit ev a h = h\<lparr>events := events h @ [(ev, a)]\<rparr>"

record MetricsStream =
  config :: Config
  buffer :: ref

definition new_MetricsStream :: "Config \<Rightarrow> 'm store \<Rightarrow> MetricsStream \<times> 'm store" where
  "new_MetricsStream cfg h =
     (case new_array [] h of (a, h') \<Rightarrow> (\<lparr>config = cfg, buffer = a\<rparr>, h'))"

definition flush :: "MetricsStream \<Rightarrow> 'm store \<Rightarrow> 'm store" where
  "flush this h =
     (if 0 < length (arrays h (buffer this)) then
        (case new_array (arrays h (buffer this)) h of
           (snapshot, h1) \<Rightarrow> array_truncate (buffer this) (emit ''data'' snapshot h1))
      else h)"

definition push :: "MetricsStream \<Rightarrow> 'm list \<Rightarrow> 'm store \<Rightarrow> 'm store" where
  "push this metrics h =
     (let h1 = array_push (buffer this) metrics h
      in if metricsBufferSize (config this) \<le> int (length (arrays h1 (buffer this)))
         then flush this h1 else h1)"

definition clear :: "MetricsStream \<Rightarrow> 'm store \<Rightarrow> 'm store" where
  "clear this h = array_truncate (buffer this) h"

text \<open>Sequences of calls on one stream.\<close>

datatype 'm call = Push "'m list" | Flush | Clear

fun exec :: "MetricsStream \<Rightarrow> 'm call \<Rightarrow> 'm store \<Rightarrow> 'm store" where
  "exec this (Push metrics) h = push this metrics h"
| "exec this Flush h = flush this h"
| "exec this Clear h = clear this h"

fun run :: "MetricsStream \<Rightarrow> 'm call list \<Rightarrow> 'm store \<Rightarrow> 'm store" where
  "run this [] h = h"
| "run this (c # cs) h = run this cs (exec this c h)"

text \<open>
  The contents of the stream's buffer as they read in a given store, and the condition
  that the buffer is an array of that store (one allocated earlier).
\<close>

definition contents :: "MetricsStream \<Rightarrow> 'm store \<Rightarrow> 'm list" where
  "contents this h = arrays h (buffer this)"

definition allocated :: "MetricsStream \<Rightarrow> 'm store \<Rightarrow> bool" where
  "allocated this h \<longleftrightarrow> buffer this < fresh h"

section \<open>Sample values\<close>

text \<open>
  A configuration with the window length of the class's own usage example and a
  threshold of 3, and one with a threshold of 0; for each, a stream created from it in
  an empty store. One run of the collector: it is started when the process has already
  used 1000 and 500 microseconds, the window opens at 1200 and 600 and closes at 1500
  and 700.
\<close>

definition cfg_example :: Config where
  "cfg_example = \<lparr>cpuProfilingDuration = 500, metricsBufferSize = 3\<rparr>"

definition stream_example :: MetricsStream where
  "stream_example = fst (new_MetricsStream cfg_example (empty_store :: nat store))"

definition store_example :: "nat store" where
  "store_example = snd (new_MetricsStream cfg_example empty_store)"

definition cfg_zero :: Config where
  "cfg_zero = \<lparr>cpuProfilingDuration = 500, metricsBufferSize = 0\<rparr>"

definition stream_zero :: MetricsStream where
  "stream_zero = fst (new_MetricsStream cfg_zero (empty_store :: nat store))"

definition store_zero :: "nat store" where
  "store_zero = snd (new_MetricsStream cfg_zero empty_store)"

definition env_example :: collect_env where
  "env_example =
     \<lparr>before_delay = \<lparr>cpu = \<lparr>user = 1200, system = 600\<rparr>, now = 10\<rparr>,
      after_delay = \<lparr>cpu = \<lparr>user = 1500, system = 700\<rparr>, now = 510\<rparr>,
      resample = \<lparr>user = 1501, system = 700\<rparr>\<rparr>"

definition collector_example :: CpuCollector where
  "collector_example = start \<lparr>user = 1000, system = 500\<rparr> (new_CpuCollector cfg_example)"

definition metrics_example :: "Metric list" where
  "metrics_example =
     [\<lparr>name = ''cpu.user'', value = Num (13 / 50), timestamp = 510, type = ''cpu'',
       metadata = \<lparr>unit = ''percent'', raw = 1300, duration = 500\<rparr>\<rparr>,
      \<lparr>name = ''cpu.system'', value = Num (3 / 25), timestamp = 510, type = ''cpu'',
       metadata = \<lparr>unit = ''percent'', raw = 600, duration = 500\<rparr>\<rparr>]"

section \<open>Properties of the collector\<close>

lemmas collector_example_defs =
  env_example_def collector_example_def cfg_example_def metrics_example_def start_def stop_def
  new_CpuCollector_def collect_def cpuUsage_def previousValueIsValid_def js_div_def
  not_started_def

text \<open>
  A call of \<open>collect\<close> that resolves has passed the running check and both calls of
  \<open>process.cpuUsage\<close> with a previous value, and its result is determined by the second
  of them.
\<close>

lemma collect_success_cases:
  assumes "collect e this = (Inr ms, this')"
  obtains startUsage endUsage where
    "isRunning this"
    "cpuUsage (cpu (before_delay e)) (lastUsage this) = Inr startUsage"
    "cpuUsage (cpu (after_delay e)) (Some startUsage) = Inr endUsage"
  using assms by (auto simp: collect_def split: if_splits sum.splits)

lemma collect_success_result:
  assumes "isRunning this"
    and "cpuUsage (cpu (before_delay e)) (lastUsage this) = Inr startUsage"
    and "cpuUsage (cpu (after_delay e)) (Some startUsage) = Inr endUsage"
  shows "collect e this =
    (Inr [\<lparr>name = ''cpu.user'',
           value = js_times (js_div (user endUsage)
                     (cpuProfilingDuration (CpuCollector.config this) * 1000)) 100,
           timestamp = now (after_delay e), type = ''cpu'',
           metadata = \<lparr>unit = ''percent'', raw = user endUsage,
                       duration = cpuProfilingDuration (CpuCollector.config this)\<rparr>\<rparr>,
          \<lparr>name = ''cpu.system'',
           value = js_times (js_div (system endUsage)
                     (cpuProfilingDuration (CpuCollector.config this) * 1000)) 100,
           timestamp = now (after_delay e), type = ''cpu'',
           metadata = \<lparr>unit = ''percent'', raw = system endUsage,
                       duration = cpuProfilingDuration (CpuCollector.config this)\<rparr>\<rparr>],
     this\<lparr>lastUsage := Some (resample e)\<rparr>)"
  using assms by (simp add: collect_def Let_def)

lemma collect_example_run:
  "collect env_example collector_example =
     (Inr metrics_example, collector_example\<lparr>lastUsage := Some (resample env_example)\<rparr>)"
  "cpuUsage (cpu (before_delay env_example)) (lastUsage collector_example)
     = Inr \<lparr>user = 200, system = 100\<rparr>"
  "cpuUsage (cpu (after_delay env_example)) (Some \<lparr>user = 200, system = 100\<rparr>)
     = Inr \<lparr>user = 1300, system = 600\<rparr>"
  by (simp_all add: collector_example_defs)

subsection \<open>The delta of a window\<close>

text \<open>
  \<open>startUsage\<close> is itself a difference (the reading at the start of the window minus
  the stored baseline), and it is passed to \<open>process.cpuUsage\<close> as if it were a reading.
  The delta that \<open>collect\<close> reports is therefore the usage of the window plus the whole
  stored baseline.
\<close>

lemma collect_raw_with_baseline:
  assumes "collect e this = (Inr ms, this')" and "lastUsage this = Some baseline"
  shows "map (\<lambda>m. raw (metadata m)) ms =
           [user (window_usage e) + user baseline, system (window_usage e) + system baseline]"
proof -
  from assms(1) obtain startUsage endUsage where
    r: "isRunning this"
    and s: "cpuUsage (cpu (before_delay e)) (lastUsage this) = Inr startUsage"
    and t: "cpuUsage (cpu (after_delay e)) (Some startUsage) = Inr endUsage"
    by (rule collect_success_cases)
  from s assms(2) have s': "startUsage =
      \<lparr>user = user (cpu (before_delay e)) - user baseline,
       system = system (cpu (before_delay e)) - system baseline\<rparr>"
    by (auto simp: cpuUsage_def split: if_splits)
  from t have t': "endUsage =
      \<lparr>user = user (cpu (after_delay e)) - user startUsage,
       system = system (cpu (after_delay e)) - system startUsage\<rparr>"
    by (auto simp: cpuUsage_def split: if_splits)
  from collect_success_result[OF r s t] assms(1)
  have "map (\<lambda>m. raw (metadata m)) ms = [user endUsage, system endUsage]"
    by auto
  then show ?thesis by (simp add: s' t' window_usage_def)
qed

text \<open>
  C1. The claim is that the delta stored as \<open>metadata.raw\<close> is exactly the usage incurred
  during the window. On the sample run the window costs 300 and 100 microseconds, and
  the collector, started at a baseline of 1000 and 500, reports 1300 and 600.
\<close>

theorem collect_raw_includes_baseline:
  "isRunning collector_example
   \<and> lastUsage collector_example = Some \<lparr>user = 1000, system = 500\<rparr>
   \<and> fst (collect env_example collector_example) =
       Inr [\<lparr>name = ''cpu.user'', value = Num (13 / 50), timestamp = 510, type = ''cpu'',
             metadata = \<lparr>unit = ''percent'', raw = 1300, duration = 500\<rparr>\<rparr>,
            \<lparr>name = ''cpu.system'', value = Num (3 / 25), timestamp = 510, type = ''cpu'',
             metadata = \<lparr>unit = ''percent'', raw = 600, duration = 500\<rparr>\<rparr>]
   \<and> window_usage env_example = \<lparr>user = 300, system = 100\<rparr>"
  by (simp add: collector_example_defs window_usage_def)

subsection \<open>Percentages\<close>

text \<open>
  C2. When \<open>collect\<close> resolves with a non-zero duration \<open>D\<close>, and \<open>endUsage\<close> is the delta
  it measured, the metrics are named \<open>cpu.user\<close> and \<open>cpu.system\<close> and their values are
  \<open>(U / (D * 1000)) * 100\<close> and \<open>(S / (D * 1000)) * 100\<close> for the user and system fields
  \<open>U\<close> and \<open>S\<close> of that delta.
\<close>

theorem collect_percent_values:
  assumes "collect e this = (Inr ms, this')"
    and "cpuUsage (cpu (before_delay e)) (lastUsage this) = Inr startUsage"
    and "cpuUsage (cpu (after_delay e)) (Some startUsage) = Inr endUsage"
    and "cpuProfilingDuration (CpuCollector.config this) \<noteq> 0"
  shows "map (\<lambda>m. (name m, value m)) ms =
    [(''cpu.user'',
      Num (real_of_int (user endUsage)
           / (real_of_int (cpuProfilingDuration (CpuCollector.config this)) * 1000) * 100)),
     (''cpu.system'',
      Num (real_of_int (system endUsage)
           / (real_of_int (cpuProfilingDuration (CpuCollector.config this)) * 1000) * 100))]"
proof -
  from assms(1) have "isRunning this" by (rule collect_success_cases)
  from collect_success_result[OF this assms(2,3)] assms(1,4) show ?thesis
    by (auto simp: js_div_def)
qed

theorem collect_percent_values_witness:
  "collect env_example collector_example =
     (Inr metrics_example, collector_example\<lparr>lastUsage := Some (resample env_example)\<rparr>)
   \<and> cpuUsage (cpu (before_delay env_example)) (lastUsage collector_example)
       = Inr \<lparr>user = 200, system = 100\<rparr>
   \<and> cpuUsage (cpu (after_delay env_example)) (Some \<lparr>user = 200, system = 100\<rparr>)
       = Inr \<lparr>user = 1300, system = 600\<rparr>
   \<and> cpuProfilingDuration (CpuCollector.config collector_example) \<noteq> 0
   \<and> map (\<lambda>m. (name m, value m)) metrics_example =
       [(''cpu.user'', Num (1300 / (500 * 1000) * 100)),
        (''cpu.system'', Num (600 / (500 * 1000) * 100))]"
proof -
  have d: "cpuProfilingDuration (CpuCollector.config collector_example) \<noteq> 0"
    and d': "cpuProfilingDuration (CpuCollector.config collector_example) = 500"
    by (simp_all add: collector_example_defs)
  from collect_percent_values[OF collect_example_run d] collect_example_run d show ?thesis
    by (simp add: d')
qed

subsection \<open>Collecting while stopped\<close>

text \<open>
  C3. When the running flag is false, \<open>collect\<close> rejects with the error
  \<open>Collector must be started before collecting metrics\<close>, yields no metrics, and the
  collector (running flag, baseline, configuration) is as it was.
\<close>

theorem collect_not_running:
  assumes "\<not> isRunning this"
  shows "collect e this = (Inl not_started, this)"
  using assms by (simp add: collect_def)

theorem collect_not_running_witness:
  "\<not> isRunning (new_CpuCollector cfg_example)
   \<and> collect env_example (new_CpuCollector cfg_example)
       = (Inl not_started, new_CpuCollector cfg_example)
   \<and> \<not> isRunning (stop collector_example)
   \<and> collect env_example (stop collector_example) = (Inl not_started, stop collector_example)"
proof -
  have a: "\<not> isRunning (new_CpuCollector cfg_example)"
    by (simp add: new_CpuCollector_def)
  have b: "\<not> isRunning (stop collector_example)"
    by (simp add: stop_def collector_example_def start_def new_CpuCollector_def)
  from collect_not_running[OF a, of env_example] collect_not_running[OF b, of env_example] a b
  show ?thesis by simp
qed

subsection \<open>Lifecycle\<close>

text \<open>
  C7. From any collector state, a second \<open>start\<close> changes nothing that the first one set,
  whatever the runtime reports at the second call; in particular the baseline of the
  first call stays. A second \<open>stop\<close> changes nothing either.
\<close>

theorem start_stop_idempotent:
  "start r2 (start r1 this) = start r1 this
   \<and> lastUsage (start r2 (start r1 this)) = lastUsage (start r1 this)
   \<and> stop (stop this) = stop this"
  by (simp add: start_def stop_def)

subsection \<open>Shape of the metrics\<close>

text \<open>
  C8. Every metric of a resolved \<open>collect\<close> has type \<open>cpu\<close>; its timestamp is the clock
  reading taken after the delay; its metadata holds the unit \<open>percent\<close>, the configured
  duration and, as \<open>raw\<close>, the field of the measured delta that belongs to its name; and
  its value is the percentage computed from that raw delta.
\<close>

theorem collect_metric_shape:
  assumes "collect e this = (Inr ms, this')"
    and "cpuUsage (cpu (before_delay e)) (lastUsage this) = Inr startUsage"
    and "cpuUsage (cpu (after_delay e)) (Some startUsage) = Inr endUsage"
    and "m \<in> set ms"
  shows "type m = ''cpu''
       \<and> timestamp m = now (after_delay e)
       \<and> unit (metadata m) = ''percent''
       \<and> duration (metadata m) = cpuProfilingDuration (CpuCollector.config this)
       \<and> (name m = ''cpu.user'' \<or> name m = ''cpu.system'')
       \<and> raw (metadata m) = (if name m = ''cpu.user'' then user endUsage else system endUsage)
       \<and> value m = js_times (js_div (raw (metadata m))
                      (cpuProfilingDuration (CpuCollector.config this) * 1000)) 100"
proof -
  from assms(1) have "isRunning this" by (rule collect_success_cases)
  from collect_success_result[OF this assms(2,3)] assms(1,4) show ?thesis
    by auto
qed

theorem collect_metric_shape_witness:
  "collect env_example collector_example =
     (Inr metrics_example, collector_example\<lparr>lastUsage := Some (resample env_example)\<rparr>)
   \<and> cpuUsage (cpu (before_delay env_example)) (lastUsage collector_example)
       = Inr \<lparr>user = 200, system = 100\<rparr>
   \<and> cpuUsage (cpu (after_delay env_example)) (Some \<lparr>user = 200, system = 100\<rparr>)
       = Inr \<lparr>user = 1300, system = 600\<rparr>
   \<and> last metrics_example \<in> set metrics_example
   \<and> type (last metrics_example) = ''cpu''
   \<and> timestamp (last metrics_example) = 510
   \<and> now (before_delay env_example) = 10
   \<and> unit (metadata (last metrics_example)) = ''percent''
   \<and> duration (metadata (last metrics_example)) = 500
   \<and> name (last metrics_example) = ''cpu.system''
   \<and> raw (metadata (last metrics_example)) = 600
   \<and> value (last metrics_example) = Num (3 / 25)"
proof -
  have m: "last metrics_example \<in> set metrics_example"
    by (simp add: metrics_example_def)
  from collect_metric_shape[OF collect_example_run m] collect_example_run m show ?thesis
    by (simp add: collector_example_defs)
qed

text \<open>
  C10. A resolved \<open>collect\<close> returns two metrics, \<open>cpu.user\<close> first and \<open>cpu.system\<close>
  second, and both carry the one clock reading taken after the delay.
\<close>

theorem collect_two_metrics:
  assumes "collect e this = (Inr ms, this')"
  shows "length ms = 2
       \<and> map name ms = [''cpu.user'', ''cpu.system'']
       \<and> map timestamp ms = [now (after_delay e), now (after_delay e)]"
proof -
  from assms obtain startUsage endUsage where
    r: "isRunning this"
    and s: "cpuUsage (cpu (before_delay e)) (lastUsage this) = Inr startUsage"
    and t: "cpuUsage (cpu (after_delay e)) (Some startUsage) = Inr endUsage"
    by (rule collect_success_cases)
  from collect_success_result[OF r s t] assms show ?thesis by auto
qed

theorem collect_two_metrics_witness:
  "collect env_example collector_example =
     (Inr metrics_example, collector_example\<lparr>lastUsage := Some (resample env_example)\<rparr>)
   \<and> length metrics_example = 2
   \<and> map name metrics_example = [''cpu.user'', ''cpu.system'']
   \<and> map timestamp metrics_example = [510, 510]"
  using collect_two_metrics[OF collect_example_run(1)] collect_example_run(1)
  by (simp add: env_example_def)

section \<open>Properties of the stream\<close>

lemmas stream_example_defs =
  stream_example_def store_example_def cfg_example_def stream_zero_def store_zero_def
  cfg_zero_def new_MetricsStream_def new_array_def empty_store_def contents_def allocated_def
  push_def flush_def clear_def array_push_def array_truncate_def emit_def

text \<open>What \<open>flush\<close> and \<open>push\<close> do to the store, case by case.\<close>

lemma flush_nonempty:
  assumes "arrays h (buffer this) \<noteq> []"
  shows "flush this h =
    h\<lparr>arrays := ((arrays h)(fresh h := arrays h (buffer this)))(buffer this := []),
      fresh := Suc (fresh h),
      events := events h @ [(''data'', fresh h)]\<rparr>"
  using assms by (simp add: flush_def new_array_def emit_def array_truncate_def)

lemma flush_empty:
  assumes "arrays h (buffer this) = []"
  shows "flush this h = h"
  using assms by (simp add: flush_def)

lemma array_push_simps:
  "arrays (array_push a xs h) = (arrays h)(a := arrays h a @ xs)"
  "fresh (array_push a xs h) = fresh h"
  "events (array_push a xs h) = events h"
  by (simp_all add: array_push_def)

lemma array_push_nil: "array_push a [] h = h"
  by (simp add: array_push_def)

lemma push_cases:
  "push this ms h =
     (if metricsBufferSize (MetricsStream.config this)
           \<le> int (length (arrays h (buffer this) @ ms))
      then flush this (array_push (buffer this) ms h)
      else array_push (buffer this) ms h)"
  by (simp add: push_def Let_def array_push_simps)

lemma stream_example_new:
  "new_MetricsStream cfg_example empty_store = (stream_example, store_example)"
  by (simp add: stream_example_def store_example_def)

subsection \<open>Pushing\<close>

text \<open>
  Against C4 as it is worded: with a threshold \<open>T = 0\<close> and nothing buffered, pushing
  \<open>T\<close> metrics (none) reaches the threshold and calls \<open>flush\<close>, which finds the buffer
  empty and emits nothing. There is no notification where exactly one is claimed.
\<close>

theorem push_zero_threshold_counterexample:
  "new_MetricsStream cfg_zero empty_store = (stream_zero, store_zero)
   \<and> metricsBufferSize (MetricsStream.config stream_zero) = 0
   \<and> contents stream_zero store_zero = []
   \<and> events store_zero = []
   \<and> int (length ([] :: nat list)) = metricsBufferSize (MetricsStream.config stream_zero)
   \<and> events (push stream_zero [] store_zero) = []
   \<and> contents stream_zero (push stream_zero [] store_zero) = []"
  by (simp add: stream_example_defs)

text \<open>
  C4. \<open>push\<close> appends the given metrics behind the buffered ones. If the buffer then
  holds at least \<open>T\<close> metrics and at least one, exactly one \<open>data\<close> notification is
  emitted, with a new array holding the old contents followed by the pushed metrics, and
  the buffer is empty when \<open>push\<close> returns; otherwise nothing is emitted and the buffer
  holds the old contents followed by the pushed metrics. For \<open>T \<ge> 1\<close> and an empty
  buffer, pushing \<open>T\<close> metrics gives one notification with exactly these metrics and an
  empty buffer, and pushing \<open>T - 1\<close> gives no notification and a buffer of length
  \<open>T - 1\<close>. For \<open>T \<le> 1\<close>, every push of at least one metric emits one notification and
  leaves the buffer empty.
\<close>

theorem push_behaviour:
  assumes "allocated this h"
  shows "contents this (array_push (buffer this) ms h) = contents this h @ ms
       \<and> push this ms h =
           (if metricsBufferSize (MetricsStream.config this) \<le> int (length (contents this h @ ms))
            then flush this (array_push (buffer this) ms h)
            else array_push (buffer this) ms h)
       \<and> (metricsBufferSize (MetricsStream.config this) \<le> int (length (contents this h @ ms))
            \<and> contents this h @ ms \<noteq> [] \<longrightarrow>
            events (push this ms h) = events h @ [(''data'', fresh h)]
          \<and> arrays (push this ms h) (fresh h) = contents this h @ ms
          \<and> contents this (push this ms h) = [])
       \<and> (\<not> (metricsBufferSize (MetricsStream.config this) \<le> int (length (contents this h @ ms))
               \<and> contents this h @ ms \<noteq> []) \<longrightarrow>
            events (push this ms h) = events h
          \<and> contents this (push this ms h) = contents this h @ ms)
       \<and> (1 \<le> metricsBufferSize (MetricsStream.config this) \<and> contents this h = []
            \<and> int (length ms) = metricsBufferSize (MetricsStream.config this) \<longrightarrow>
            events (push this ms h) = events h @ [(''data'', fresh h)]
          \<and> arrays (push this ms h) (fresh h) = ms
          \<and> contents this (push this ms h) = [])
       \<and> (1 \<le> metricsBufferSize (MetricsStream.config this) \<and> contents this h = []
            \<and> int (length ms) = metricsBufferSize (MetricsStream.config this) - 1 \<longrightarrow>
            events (push this ms h) = events h
          \<and> int (length (contents this (push this ms h)))
              = metricsBufferSize (MetricsStream.config this) - 1)
       \<and> (metricsBufferSize (MetricsStream.config this) \<le> 1 \<and> ms \<noteq> [] \<longrightarrow>
            events (push this ms h) = events h @ [(''data'', fresh h)]
          \<and> arrays (push this ms h) (fresh h) = contents this h @ ms
          \<and> contents this (push this ms h) = [])"
proof -
  let ?T = "metricsBufferSize (MetricsStream.config this)"
  let ?h1 = "array_push (buffer this) ms h"
  from assms have ne: "fresh h \<noteq> buffer this"
    by (simp add: allocated_def)
  have fire: "events (push this ms h) = events h @ [(''data'', fresh h)]
          \<and> arrays (push this ms h) (fresh h) = contents this h @ ms
          \<and> contents this (push this ms h) = []"
    if "?T \<le> int (length (contents this h @ ms))" and "contents this h @ ms \<noteq> []"
  proof -
    from that(2) have "arrays ?h1 (buffer this) \<noteq> []"
      by (simp add: contents_def array_push_simps)
    from flush_nonempty[OF this] that(1) ne show ?thesis
      by (simp add: contents_def push_cases array_push_simps)
  qed
  have quiet: "events (push this ms h) = events h
          \<and> contents this (push this ms h) = contents this h @ ms"
    if "\<not> (?T \<le> int (length (contents this h @ ms)) \<and> contents this h @ ms \<noteq> [])"
  proof (cases "?T \<le> int (length (contents this h @ ms))")
    case True
    with that have "contents this h @ ms = []" by simp
    then have "arrays h (buffer this) = []" and "ms = []" by (simp_all add: contents_def)
    then show ?thesis using True
      by (simp add: contents_def push_cases array_push_nil flush_empty)
  next
    case False
    then show ?thesis by (simp add: contents_def push_cases array_push_simps)
  qed
  have full: "events (push this ms h) = events h @ [(''data'', fresh h)]
          \<and> arrays (push this ms h) (fresh h) = ms
          \<and> contents this (push this ms h) = []"
    if "1 \<le> ?T" and "contents this h = []" and "int (length ms) = ?T"
  proof -
    from that have "?T \<le> int (length (contents this h @ ms))" and "contents this h @ ms \<noteq> []"
      by auto
    from fire[OF this] that(2) show ?thesis by simp
  qed
  have short: "events (push this ms h) = events h
          \<and> int (length (contents this (push this ms h))) = ?T - 1"
    if "1 \<le> ?T" and "contents this h = []" and "int (length ms) = ?T - 1"
  proof -
    from that have "\<not> (?T \<le> int (length (contents this h @ ms)) \<and> contents this h @ ms \<noteq> [])"
      by simp
    from quiet[OF this] that show ?thesis by simp
  qed
  have every: "events (push this ms h) = events h @ [(''data'', fresh h)]
          \<and> arrays (push this ms h) (fresh h) = contents this h @ ms
          \<and> contents this (push this ms h) = []"
    if "?T \<le> 1" and "ms \<noteq> []"
  proof -
    from that(2) have "1 \<le> int (length ms)" by (cases ms) simp_all
    with that have "?T \<le> int (length (contents this h @ ms))" and "contents this h @ ms \<noteq> []"
      by simp_all
    from fire[OF this] show ?thesis .
  qed
  have call: "contents this (array_push (buffer this) ms h) = contents this h @ ms
       \<and> push this ms h =
           (if ?T \<le> int (length (contents this h @ ms)) then flush this ?h1 else ?h1)"
    by (simp add: contents_def push_cases array_push_simps)
  from call fire quiet full short every show ?thesis by blast
qed

theorem push_behaviour_witness:
  "allocated stream_example store_example
   \<and> metricsBufferSize (MetricsStream.config stream_example) = 3
   \<and> contents stream_example store_example = []
   \<and> events store_example = [] \<and> fresh store_example = 1
   \<and> events (push stream_example [4, 5, 6] store_example) = [(''data'', 1)]
   \<and> arrays (push stream_example [4, 5, 6] store_example) 1 = [4, 5, 6]
   \<and> contents stream_example (push stream_example [4, 5, 6] store_example) = []
   \<and> events (push stream_example [4, 5] store_example) = []
   \<and> contents stream_example (push stream_example [4, 5] store_example) = [4, 5]
   \<and> allocated stream_example (push stream_example [4, 5] store_example)
   \<and> events (push stream_example [6, 7] (push stream_example [4, 5] store_example))
       = [(''data'', 1)]
   \<and> arrays (push stream_example [6, 7] (push stream_example [4, 5] store_example)) 1
       = [4, 5, 6, 7]
   \<and> allocated stream_zero store_zero
   \<and> metricsBufferSize (MetricsStream.config stream_zero) \<le> 1
   \<and> events (push stream_zero [9] store_zero) = [(''data'', 1)]
   \<and> arrays (push stream_zero [9] store_zero) 1 = [9]
   \<and> contents stream_zero (push stream_zero [9] store_zero) = []"
proof -
  let ?h1 = "push stream_example [4, 5] store_example"
  have a: "allocated stream_example store_example"
    and t: "metricsBufferSize (MetricsStream.config stream_example) = 3"
    and c: "contents stream_example store_example = []"
    and e: "events store_example = []" and f: "fresh store_example = 1"
    and a0: "allocated stream_zero store_zero"
    and t0: "metricsBufferSize (MetricsStream.config stream_zero) = 0"
    and c0: "contents stream_zero store_zero = []"
    and e0: "events store_zero = []" and f0: "fresh store_zero = 1"
    by (simp_all add: stream_example_defs)
  have a1: "allocated stream_example ?h1"
    and c1: "contents stream_example ?h1 = [4, 5]"
    and e1: "events ?h1 = []" and f1: "fresh ?h1 = 1"
    by (simp_all add: stream_example_defs)
  note effects = conjunct2[OF conjunct2]
  from push_behaviour[OF a, of "[4, 5, 6]", THEN effects]
    push_behaviour[OF a, of "[4, 5]", THEN effects]
    push_behaviour[OF a1, of "[6, 7]", THEN effects]
    push_behaviour[OF a0, of "[9]", THEN effects]
    a t c e f a0 t0 c0 e0 f0 a1 c1 e1 f1
  show ?thesis by simp
qed

subsection \<open>Flushing\<close>

text \<open>
  C5. On a non-empty buffer \<open>flush\<close> emits exactly one \<open>data\<close> notification; the array
  it carries is a new one, not the buffer, and holds the buffer's contents in order;
  afterwards the buffer is empty. On an empty buffer \<open>flush\<close> changes nothing: no
  notification, buffer still empty.
\<close>

theorem flush_behaviour:
  assumes "allocated this h"
  shows "(contents this h \<noteq> [] \<longrightarrow>
            events (flush this h) = events h @ [(''data'', fresh h)]
          \<and> fresh h \<noteq> buffer this
          \<and> arrays (flush this h) (fresh h) = contents this h
          \<and> contents this (flush this h) = [])
       \<and> (contents this h = [] \<longrightarrow> flush this h = h)"
proof -
  from assms have ne: "fresh h \<noteq> buffer this"
    by (simp add: allocated_def)
  show ?thesis
  proof (cases "arrays h (buffer this) = []")
    case True
    then show ?thesis by (simp add: contents_def flush_empty)
  next
    case False
    then show ?thesis using ne by (simp add: contents_def flush_nonempty)
  qed
qed

theorem flush_behaviour_witness:
  "allocated stream_example (push stream_example [4, 5] store_example)
   \<and> contents stream_example (push stream_example [4, 5] store_example) = [4, 5]
   \<and> events (flush stream_example (push stream_example [4, 5] store_example)) = [(''data'', 1)]
   \<and> buffer stream_example = 0
   \<and> arrays (flush stream_example (push stream_example [4, 5] store_example)) 1 = [4, 5]
   \<and> contents stream_example (flush stream_example (push stream_example [4, 5] store_example)) = []
   \<and> allocated stream_example store_example
   \<and> contents stream_example store_example = []
   \<and> flush stream_example store_example = store_example"
proof -
  let ?h1 = "push stream_example [4, 5] store_example"
  have a: "allocated stream_example store_example"
    and c: "contents stream_example store_example = []"
    and b: "buffer stream_example = 0"
    by (simp_all add: stream_example_defs)
  have a1: "allocated stream_example ?h1"
    and c1: "contents stream_example ?h1 = [4, 5]"
    and e1: "events ?h1 = []" and f1: "fresh ?h1 = 1"
    by (simp_all add: stream_example_defs)
  from flush_behaviour[OF a1] flush_behaviour[OF a] a c b a1 c1 e1 f1
  show ?thesis by simp
qed

subsection \<open>Delivered arrays are not the buffer\<close>

text \<open>
  An array other than the buffer that exists already is not touched by any call on the
  stream, and references are never reused.
\<close>

lemma exec_frame:
  assumes "a < fresh h" and "a \<noteq> buffer this"
  shows "arrays (exec this c h) a = arrays h a \<and> fresh h \<le> fresh (exec this c h)"
proof (cases c)
  case (Push ms)
  show ?thesis
  proof (cases "arrays h (buffer this) @ ms = []")
    case True
    then show ?thesis using assms Push
      by (simp add: push_cases flush_empty array_push_simps)
  next
    case False
    then have "arrays (array_push (buffer this) ms h) (buffer this) \<noteq> []"
      by (simp add: array_push_simps)
    then show ?thesis using assms Push
      by (simp add: push_cases flush_nonempty array_push_simps)
  qed
next
  case Flush
  then show ?thesis using assms
    by (cases "arrays h (buffer this) = []") (simp_all add: flush_empty flush_nonempty)
next
  case Clear
  then show ?thesis using assms by (simp add: clear_def array_truncate_def)
qed

lemma run_frame:
  assumes "a < fresh h" and "a \<noteq> buffer this"
  shows "arrays (run this cs h) a = arrays h a"
  using assms
proof (induction cs arbitrary: h)
  case Nil
  then show ?case by simp
next
  case (Cons c cs)
  from exec_frame[OF Cons.prems] have
    eq: "arrays (exec this c h) a = arrays h a" and le: "fresh h \<le> fresh (exec this c h)"
    by simp_all
  from le Cons.prems(1) have "a < fresh (exec this c h)" by simp
  from Cons.IH[OF this Cons.prems(2)] eq show ?case by simp
qed

text \<open>
  The buffer of a stream is allocated by its constructor and stays so: every store
  reached from the construction by calls on the stream satisfies \<open>allocated\<close>.
\<close>

lemma allocated_new:
  assumes "new_MetricsStream cfg h0 = (this, h)"
  shows "allocated this h"
  using assms by (auto simp: new_MetricsStream_def new_array_def allocated_def)

lemma allocated_exec:
  assumes "allocated this h"
  shows "allocated this (exec this c h)"
proof (cases c)
  case (Push ms)
  show ?thesis
  proof (cases "arrays h (buffer this) @ ms = []")
    case True
    then show ?thesis using assms Push
      by (simp add: allocated_def push_cases flush_empty array_push_simps)
  next
    case False
    then have "arrays (array_push (buffer this) ms h) (buffer this) \<noteq> []"
      by (simp add: array_push_simps)
    then show ?thesis using assms Push
      by (simp add: allocated_def push_cases flush_nonempty array_push_simps)
  qed
next
  case Flush
  then show ?thesis using assms
    by (cases "arrays h (buffer this) = []")
       (simp_all add: allocated_def flush_empty flush_nonempty)
next
  case Clear
  then show ?thesis using assms by (simp add: allocated_def clear_def array_truncate_def)
qed

lemma allocated_run:
  assumes "allocated this h"
  shows "allocated this (run this cs h)"
  using assms by (induction cs arbitrary: h) (simp_all add: allocated_exec)

text \<open>
  C6. When a flush fires, called directly or by \<open>push\<close> on reaching the threshold, the
  array delivered with the notification holds the buffered metrics, and whatever
  \<open>push\<close>, \<open>flush\<close> and \<open>clear\<close> calls follow, that array still holds the same
  metrics.
\<close>

theorem snapshot_isolation:
  assumes "allocated this h"
  shows "(contents this h \<noteq> [] \<longrightarrow>
            events (flush this h) = events h @ [(''data'', fresh h)]
          \<and> arrays (flush this h) (fresh h) = contents this h
          \<and> arrays (run this cs (flush this h)) (fresh h) = contents this h)
       \<and> (metricsBufferSize (MetricsStream.config this) \<le> int (length (contents this h @ ms))
            \<and> contents this h @ ms \<noteq> [] \<longrightarrow>
            events (push this ms h) = events h @ [(''data'', fresh h)]
          \<and> arrays (push this ms h) (fresh h) = contents this h @ ms
          \<and> arrays (run this cs (push this ms h)) (fresh h) = contents this h @ ms)"
proof -
  from assms have ne: "fresh h \<noteq> buffer this"
    by (simp add: allocated_def)
  have key: "arrays g (buffer this) \<noteq> [] \<Longrightarrow> fresh g \<noteq> buffer this \<Longrightarrow>
      events (flush this g) = events g @ [(''data'', fresh g)]
    \<and> arrays (flush this g) (fresh g) = arrays g (buffer this)
    \<and> arrays (run this cs (flush this g)) (fresh g) = arrays g (buffer this)" for g :: "'a store"
  proof -
    assume a: "arrays g (buffer this) \<noteq> []" and b: "fresh g \<noteq> buffer this"
    have "fresh g < fresh (flush this g)" using a by (simp add: flush_nonempty)
    from run_frame[OF this b]
    have "arrays (run this cs (flush this g)) (fresh g) = arrays (flush this g) (fresh g)" .
    then show ?thesis using a b by (simp add: flush_nonempty)
  qed
  have one: "contents this h \<noteq> [] \<longrightarrow>
            events (flush this h) = events h @ [(''data'', fresh h)]
          \<and> arrays (flush this h) (fresh h) = contents this h
          \<and> arrays (run this cs (flush this h)) (fresh h) = contents this h"
    using key[of h] ne by (simp add: contents_def)
  have two: "metricsBufferSize (MetricsStream.config this) \<le> int (length (contents this h @ ms))
            \<and> contents this h @ ms \<noteq> [] \<longrightarrow>
            events (push this ms h) = events h @ [(''data'', fresh h)]
          \<and> arrays (push this ms h) (fresh h) = contents this h @ ms
          \<and> arrays (run this cs (push this ms h)) (fresh h) = contents this h @ ms"
    using key[of "array_push (buffer this) ms h"] ne
    by (simp add: contents_def push_cases array_push_simps)
  from one two show ?thesis by blast
qed

theorem snapshot_isolation_witness:
  "allocated stream_example (push stream_example [4, 5] store_example)
   \<and> contents stream_example (push stream_example [4, 5] store_example) = [4, 5]
   \<and> events (flush stream_example (push stream_example [4, 5] store_example)) = [(''data'', 1)]
   \<and> arrays (flush stream_example (push stream_example [4, 5] store_example)) 1 = [4, 5]
   \<and> arrays (run stream_example [Push [6], Clear, Push [7, 8, 9], Flush]
               (flush stream_example (push stream_example [4, 5] store_example))) 1 = [4, 5]
   \<and> metricsBufferSize (MetricsStream.config stream_example) = 3
   \<and> events (push stream_example [6, 7] (push stream_example [4, 5] store_example))
       = [(''data'', 1)]
   \<and> arrays (run stream_example [Push [6], Clear, Push [7, 8, 9], Flush]
               (push stream_example [6, 7] (push stream_example [4, 5] store_example))) 1
       = [4, 5, 6, 7]"
proof -
  let ?h1 = "push stream_example [4, 5] store_example"
  have a1: "allocated stream_example ?h1"
    and c1: "contents stream_example ?h1 = [4, 5]"
    and e1: "events ?h1 = []" and f1: "fresh ?h1 = 1"
    and t: "metricsBufferSize (MetricsStream.config stream_example) = 3"
    by (simp_all add: stream_example_defs)
  from snapshot_isolation[OF a1, of "[Push [6], Clear, Push [7, 8, 9], Flush]" "[6, 7]"]
    a1 c1 e1 f1 t
  show ?thesis by simp
qed

subsection \<open>The buffer stays below the threshold\<close>

lemma exec_below:
  assumes "1 \<le> metricsBufferSize (MetricsStream.config this)"
    and "int (length (arrays h (buffer this))) < metricsBufferSize (MetricsStream.config this)"
  shows "int (length (arrays (exec this c h) (buffer this)))
           < metricsBufferSize (MetricsStream.config this)"
proof (cases c)
  case (Push ms)
  show ?thesis
  proof (cases "metricsBufferSize (MetricsStream.config this)
                  \<le> int (length (arrays h (buffer this) @ ms))")
    case True
    with assms(1) have "arrays (array_push (buffer this) ms h) (buffer this) \<noteq> []"
      by (auto simp: array_push_simps)
    then show ?thesis using Push True assms(1)
      by (simp add: push_cases flush_nonempty)
  next
    case False
    then show ?thesis using Push by (simp add: push_cases array_push_simps)
  qed
next
  case Flush
  then show ?thesis using assms
    by (cases "arrays h (buffer this) = []") (simp_all add: flush_empty flush_nonempty)
next
  case Clear
  then show ?thesis using assms by (simp add: clear_def array_truncate_def)
qed

lemma run_below:
  assumes "1 \<le> metricsBufferSize (MetricsStream.config this)"
    and "int (length (arrays h (buffer this))) < metricsBufferSize (MetricsStream.config this)"
  shows "int (length (arrays (run this cs h) (buffer this)))
           < metricsBufferSize (MetricsStream.config this)"
  using assms(2)
proof (induction cs arbitrary: h)
  case Nil
  then show ?case by simp
next
  case (Cons c cs)
  from exec_below[OF assms(1) Cons.prems] Cons.IH show ?case by simp
qed

lemma new_MetricsStream_result:
  assumes "new_MetricsStream cfg h0 = (this, h)"
  shows "MetricsStream.config this = cfg" and "arrays h (buffer this) = []"
    and "buffer this < fresh h" and "events h = events h0"
  using assms by (auto simp: new_MetricsStream_def new_array_def)

text \<open>
  C9. For a threshold \<open>T \<ge> 1\<close> and a stream just constructed, after each call of any
  finite sequence of \<open>push\<close>, \<open>flush\<close> and \<open>clear\<close> calls (that is, after every prefix
  of the sequence) the buffer holds fewer than \<open>T\<close> metrics.
\<close>

theorem buffer_below_threshold:
  assumes "1 \<le> metricsBufferSize cfg"
    and "new_MetricsStream cfg h0 = (this, h)"
  shows "int (length (contents this (run this (take n cs) h))) < metricsBufferSize cfg"
proof -
  from new_MetricsStream_result[OF assms(2)]
  have c: "MetricsStream.config this = cfg" and e: "arrays h (buffer this) = []" by simp_all
  from assms(1) c have 1: "1 \<le> metricsBufferSize (MetricsStream.config this)" by simp
  from assms(1) c e
  have 2: "int (length (arrays h (buffer this))) < metricsBufferSize (MetricsStream.config this)"
    by simp
  from run_below[OF 1 2, of "take n cs"] c show ?thesis by (simp add: contents_def)
qed

theorem buffer_below_threshold_witness:
  "1 \<le> metricsBufferSize cfg_example
   \<and> new_MetricsStream cfg_example empty_store = (stream_example, store_example)
   \<and> int (length (contents stream_example
         (run stream_example (take 2 [Push [4, 5], Push [6, 7], Flush, Clear]) store_example)))
       < metricsBufferSize cfg_example"
proof -
  have t: "1 \<le> metricsBufferSize cfg_example"
    by (simp add: cfg_example_def)
  from buffer_below_threshold[OF t stream_example_new,
      of 2 "[Push [4, 5], Push [6, 7], Flush, Clear]"]
    t stream_example_new
  show ?thesis by simp
qed

end
